theory Spec2Isabelle
  imports Main
begin

section \<open>Data model\<close>

text \<open>
  The objects of the payment app all carry an \<open>address\<close> field; the records below share it
  through one base record, so that the source's field names stay as they are.
  Amounts are JavaScript \<open>bigint\<close> values (unbounded), hence \<open>int\<close>.
\<close>

record Addressed =
  address :: string

text \<open>
  \<open>PoolBalanceRow\<close> (src/database/index.ts): a row of the \<open>balances\<close> table. The column
  \<open>available_balance\<close> arrives as decimal text and goes through \<open>BigInt\<close>; the model
  holds the integer that text denotes.
\<close>

record PoolBalanceRow = Addressed +
  available_balance :: int

text \<open>The object that \<open>getAllBalancesExcludingPool\<close> builds from a row.\<close>

record MinerBalance = Addressed +
  minerId :: string
  balance :: int

text \<open>\<open>IPaymentOutput\<close>: one output handed to the transaction generator.\<close>

record IPaymentOutput = Addressed +
  amount :: int

text \<open>
  \<open>PaymentRow\<close>: a row of the \<open>payments\<close> table, with the columns that
  \<open>recordPayment\<close> inserts (the database assigns the row's id).
\<close>

record PaymentRow = IPaymentOutput +
  tx_id :: string
  timestamp :: nat
  notified :: bool

text \<open>
  A transaction returned by the external generator \<open>createTransactions\<close>. Signing and
  submitting are calls into the wallet library and the node; whether they reject is part of
  what the environment returns.
\<close>

record PendingTransaction =
  transaction_id :: string
  sign_fails :: bool
  submit_fails :: bool

text \<open>
  Exceptions, by where they are thrown: \<open>StoreUnavailable\<close> is a rejected database query,
  \<open>SubmissionFailed\<close> is anything thrown while building, signing or submitting transactions.
\<close>

datatype error = StoreUnavailable | SubmissionFailed

text \<open>Calls that reach the two collaborators, in the order they are made.\<close>

datatype call =
    GetAllBalancesExcludingPool
  | ResetBalanceByAddress string
  | RecordPayment string int string
  | Send "IPaymentOutput list"

text \<open>Lines written through \<open>monitoring.log\<close>, \<open>monitoring.error\<close> and \<open>console.log\<close>
  (the lines guarded by \<open>DEBUG\<close> are left out).\<close>

datatype log_line =
    ProcessingBalance int string
  | NoPaymentsFound
  | ConsoleLog "IPaymentOutput list"
  | SentPayments "string option"
  | ResetBalance string
  | RunningScheduledTransfer
  | TransactionManagerError error
  | RpcNotEstablished

text \<open>
  Everything a payout cycle can change: the two tables, the transactions broadcast to the
  node, and the observable calls and log lines. \<open>queries\<close> counts the database queries
  issued so far; it indexes the environment's decision whether a query rejects.
\<close>

record world =
  tbl_balances :: "PoolBalanceRow list"
  tbl_payments :: "PaymentRow list"
  submitted :: "string list"
  queries :: nat
  calls :: "call list"
  logs :: "log_line list"

text \<open>
  The environment of a cycle: \<open>db_fails n\<close> says whether the \<open>n\<close>-th query rejects, and
  \<open>createTransactions\<close> is the wallet library's generator. It reads the UTXO context
  (here: the transactions broadcast so far), the change address and the outputs, and either
  throws (\<open>None\<close>) or returns the transactions with the summary's \<open>finalTransactionId\<close>
  (possibly undefined).
\<close>

record env =
  db_fails :: "nat \<Rightarrow> bool"
  createTransactions ::
    "string list \<Rightarrow> string \<Rightarrow> IPaymentOutput list \<Rightarrow>
       (PendingTransaction list \<times> string option) option"

text \<open>The fields of \<open>trxManager\<close> that the cycle reads: the derived pool address and the network.\<close>

record trxManager = Addressed +
  networkId :: string

section \<open>Database (src/database/index.ts)\<close>

text \<open>
  \<open>this.client.query\<close>: the query is issued, and the environment says whether it resolves.
  What a resolved query reads or writes is in the three methods below.
\<close>

definition query :: "env \<Rightarrow> call \<Rightarrow> world \<Rightarrow> bool \<times> world" where
  "query e c w =
     (\<not> db_fails e (queries w), w\<lparr>queries := Suc (queries w), calls := calls w @ [c]\<rparr>)"

definition getAllBalancesExcludingPool :: "env \<Rightarrow> world \<Rightarrow> (error + MinerBalance list) \<times> world" where
  "getAllBalancesExcludingPool e w =
     (case query e GetAllBalancesExcludingPool w of
        (ok, w') \<Rightarrow>
          if ok
          then (Inr (map (\<lambda>row. \<lparr>address = address row, minerId = address row,
                                  balance = available_balance row\<rparr>)
                       (filter (\<lambda>row. address row \<noteq> ''pool'') (tbl_balances w'))), w')
          else (Inl StoreUnavailable, w'))"

definition resetBalanceByAddress :: "env \<Rightarrow> string \<Rightarrow> world \<Rightarrow> (error + unit) \<times> world" where
  "resetBalanceByAddress e wallet w =
     (case query e (ResetBalanceByAddress wallet) w of
        (ok, w') \<Rightarrow>
          if ok
          then (Inr (),
                w'\<lparr>tbl_balances :=
                      map (\<lambda>row. if address row = wallet then row\<lparr>available_balance := 0\<rparr>
                                   else row)
                        (tbl_balances w')\<rparr>)
          else (Inl StoreUnavailable, w'))"

definition recordPayment ::
  "env \<Rightarrow> nat \<Rightarrow> string \<Rightarrow> int \<Rightarrow> string \<Rightarrow> world \<Rightarrow> (error + unit) \<times> world" where
  "recordPayment e now addr amt txId w =
     (let timestamp = now div 1000 in
      case query e (RecordPayment addr amt txId) w of
        (ok, w') \<Rightarrow>
          if ok
          then (Inr (),
                w'\<lparr>tbl_payments := tbl_payments w' @
                      [\<lparr>address = addr, amount = amt, tx_id = txId, timestamp = timestamp,
                        notified = False\<rparr>]\<rparr>)
          else (Inl StoreUnavailable, w'))"

section \<open>trxManager (src/trxs/index.ts)\<close>

text \<open>
  Modelled from the spec: the class \<open>Monitoring\<close> (src/monitoring) is not among the sources.
  By the specification's account of observability its methods write a log line and do
  nothing else; \<open>log\<close> and \<open>error\<close> are told apart by the line itself. The amount in a
  \<open>ProcessingBalance\<close> line stands for the text the wallet library formats it to.
\<close>

definition monitoring_log :: "log_line \<Rightarrow> world \<Rightarrow> world" where
  "monitoring_log l w = w\<lparr>logs := logs w @ [l]\<rparr>"

text \<open>JavaScript truthiness of \<open>summary.finalTransactionId\<close>: undefined and the empty string are falsy.\<close>

definition truthy :: "string option \<Rightarrow> bool" where
  "truthy t = (case t of None \<Rightarrow> False | Some s \<Rightarrow> s \<noteq> [])"

text \<open>The loop over the transactions in \<open>send\<close>: sign, submit, wait; the first rejection ends it.\<close>

fun submit_each :: "PendingTransaction list \<Rightarrow> world \<Rightarrow> (error + unit) \<times> world" where
  "submit_each [] w = (Inr (), w)"
| "submit_each (t # ts) w =
     (if sign_fails t then (Inl SubmissionFailed, w)
      else if submit_fails t then (Inl SubmissionFailed, w)
      else submit_each ts (w\<lparr>submitted := submitted w @ [transaction_id t]\<rparr>))"

definition send ::
  "trxManager \<Rightarrow> env \<Rightarrow> IPaymentOutput list \<Rightarrow> world \<Rightarrow> (error + string option) \<times> world" where
  "send this e outputs w =
     (let w0 = monitoring_log (ConsoleLog outputs) (w\<lparr>calls := calls w @ [Send outputs]\<rparr>) in
      case createTransactions e (submitted w) (address this) outputs of
        None \<Rightarrow> (Inl SubmissionFailed, w0)
      | Some (transactions, finalTransactionId) \<Rightarrow>
          (case submit_each transactions w0 of
             (Inl err, w1) \<Rightarrow> (Inl err, w1)
           | (Inr u, w1) \<Rightarrow> (Inr finalTransactionId, w1)))"

text \<open>The first loop of \<open>transferBalances\<close>: one payment per strictly positive balance.\<close>

fun payments_loop ::
  "MinerBalance list \<Rightarrow> IPaymentOutput list \<Rightarrow> world \<Rightarrow> IPaymentOutput list \<times> world" where
  "payments_loop [] payments w = (payments, w)"
| "payments_loop (b # bs) payments w =
     (if balance b > 0
      then payments_loop bs (payments @ [\<lparr>address = address b, amount = balance b\<rparr>])
             (monitoring_log (ProcessingBalance (balance b) (address b)) w)
      else payments_loop bs payments w)"

text \<open>The second loop: reset every strictly positive balance of the snapshot; a rejected
  query is not caught, so it ends the loop and the cycle.\<close>

fun reset_loop :: "env \<Rightarrow> MinerBalance list \<Rightarrow> world \<Rightarrow> (error + unit) \<times> world" where
  "reset_loop e [] w = (Inr (), w)"
| "reset_loop e (b # bs) w =
     (if balance b > 0
      then (case resetBalanceByAddress e (address b) w of
              (Inl err, w') \<Rightarrow> (Inl err, w')
            | (Inr u, w') \<Rightarrow> reset_loop e bs (monitoring_log (ResetBalance (address b)) w'))
      else reset_loop e bs w)"

definition transferBalances :: "trxManager \<Rightarrow> env \<Rightarrow> world \<Rightarrow> (error + unit) \<times> world" where
  "transferBalances this e w =
     (case getAllBalancesExcludingPool e w of
        (Inl err, w1) \<Rightarrow> (Inl err, w1)
      | (Inr balances, w1) \<Rightarrow>
          (case payments_loop balances [] w1 of
             (payments, w2) \<Rightarrow>
               if length payments = 0 then (Inr (), monitoring_log NoPaymentsFound w2)
               else (case send this e payments w2 of
                       (Inl err, w3) \<Rightarrow> (Inl err, w3)
                     | (Inr transactionId, w3) \<Rightarrow>
                         if truthy transactionId
                         then reset_loop e balances (monitoring_log (SentPayments transactionId) w3)
                         else (Inr (), monitoring_log (SentPayments transactionId) w3))))"

section \<open>Entry point: configuration and schedule\<close>

text \<open>
  The repository holds two variants of the entry point. \<open>index.ts\<close> reads
  \<open>config.paymentInterval\<close> in hours and lets a ten-minute cron job test \<open>isPaymentTime\<close>;
  the second variant (src/unnamed/part_001) reads it in minutes and puts it into the cron
  expression. The setting is a number of the JSON configuration, absent or present.
\<close>

datatype entrypoint = Hours int | Minutes int

text \<open>JavaScript \<open>v || d\<close> on an optional number: undefined and 0 are falsy.\<close>

definition or_default :: "int option \<Rightarrow> int \<Rightarrow> int" where
  "or_default v d = (case v of None \<Rightarrow> d | Some x \<Rightarrow> if x = 0 then d else x)"

text \<open>Lines 50 to 54 of the minutes variant: the value used, or the thrown message.\<close>

definition paymentInterval_minutes :: "int option \<Rightarrow> string + int" where
  "paymentInterval_minutes cfg =
     (let paymentInterval = or_default cfg 30 in
      if paymentInterval < 5 \<or> paymentInterval > 1440
      then Inl ''paymentInterval must be between 5 and 1440 minutes.''
      else Inr paymentInterval)"

text \<open>Lines 50 to 54 of \<open>index.ts\<close>.\<close>

definition paymentInterval_hours :: "int option \<Rightarrow> string + int" where
  "paymentInterval_hours cfg =
     (let paymentInterval = or_default cfg 2 in
      if paymentInterval < 1 \<or> paymentInterval > 24
      then Inl ''paymentInterval must be between 1 and 24 hours.''
      else Inr paymentInterval)"

text \<open>
  The wall clock as the cron library and \<open>Date\<close> read it. The cron library (node-cron) is
  not part of the repository; of its pattern language the two entry points use three field
  forms, with the usual cron meaning: \<open>*\<close>, a number, and \<open>*/n\<close> (every value divisible by
  \<open>n\<close>). A pattern of five fields starts at the minute and fires at second 0.
\<close>

record clock =
  second :: nat
  minute :: nat
  hour :: nat
  dayOfMonth :: nat
  month :: nat
  dayOfWeek :: nat

datatype cron_field = Star | Num nat | Every nat

fun field_matches :: "cron_field \<Rightarrow> nat \<Rightarrow> bool" where
  "field_matches Star v = True"
| "field_matches (Num k) v = (v = k)"
| "field_matches (Every n) v = (v mod n = 0)"

fun cron_matches :: "cron_field list \<Rightarrow> clock \<Rightarrow> bool" where
  "cron_matches [s, m, h, d, mo, wd] now =
     (field_matches s (second now) \<and> field_matches m (minute now) \<and>
      field_matches h (hour now) \<and> field_matches d (dayOfMonth now) \<and>
      field_matches mo (month now) \<and> field_matches wd (dayOfWeek now))"
| "cron_matches [m, h, d, mo, wd] now =
     (field_matches (Num 0) (second now) \<and> field_matches m (minute now) \<and>
      field_matches h (hour now) \<and> field_matches d (dayOfMonth now) \<and>
      field_matches mo (month now) \<and> field_matches wd (dayOfWeek now))"
| "cron_matches fs now = False"

text \<open>The pattern each variant hands to \<open>cron.schedule\<close>.\<close>

fun schedule :: "entrypoint \<Rightarrow> cron_field list" where
  "schedule (Hours paymentInterval) = [Every 10, Star, Star, Star, Star]"
| "schedule (Minutes paymentInterval) =
     [Num 0, Every (nat paymentInterval), Star, Star, Star, Star]"

definition isPaymentTime :: "int \<Rightarrow> clock \<Rightarrow> bool" where
  "isPaymentTime paymentInterval now =
     (minute now = 0 \<and> int (hour now) mod paymentInterval = 0)"

text \<open>Whether the cron job runs its callback at \<open>now\<close> and the callback goes on to the transfer.\<close>

fun transfer_due :: "entrypoint \<Rightarrow> clock \<Rightarrow> bool" where
  "transfer_due (Hours p) now = (cron_matches (schedule (Hours p)) now \<and> isPaymentTime p now)"
| "transfer_due (Minutes p) now = cron_matches (schedule (Minutes p)) now"

section \<open>Entry point: the cron callback and the cycles in flight\<close>

text \<open>
  \<open>transferBalances\<close> is an async function: it gives up control at each \<open>await\<close>, and the
  callback of a later cron tick can run before it resumes. A cycle in flight is the rest
  of the function after the \<open>await\<close> it is suspended at. The awaited operation takes effect
  when the cycle resumes; \<open>send\<close> is taken as one step.
\<close>

datatype task =
    AwaitBalances
  | AwaitSend "MinerBalance list" "IPaymentOutput list"
  | AwaitReset "MinerBalance list"
  | Settled "error + unit"

text \<open>The reset loop up to its next \<open>await\<close>: rows without a positive balance are skipped.\<close>

fun next_reset :: "MinerBalance list \<Rightarrow> task" where
  "next_reset [] = Settled (Inr ())"
| "next_reset (b # bs) = (if balance b > 0 then AwaitReset (b # bs) else next_reset bs)"

fun resume :: "trxManager \<Rightarrow> env \<Rightarrow> task \<Rightarrow> world \<Rightarrow> task \<times> world" where
  "resume this e AwaitBalances w =
     (case getAllBalancesExcludingPool e w of
        (Inl err, w1) \<Rightarrow> (Settled (Inl err), w1)
      | (Inr balances, w1) \<Rightarrow>
          (case payments_loop balances [] w1 of
             (payments, w2) \<Rightarrow>
               if length payments = 0 then (Settled (Inr ()), monitoring_log NoPaymentsFound w2)
               else (AwaitSend balances payments, w2)))"
| "resume this e (AwaitSend balances payments) w =
     (case send this e payments w of
        (Inl err, w3) \<Rightarrow> (Settled (Inl err), w3)
      | (Inr transactionId, w3) \<Rightarrow>
          (if truthy transactionId then next_reset balances else Settled (Inr ()),
           monitoring_log (SentPayments transactionId) w3))"
| "resume this e (AwaitReset []) w = (Settled (Inr ()), w)"
| "resume this e (AwaitReset (b # bs)) w =
     (case resetBalanceByAddress e (address b) w of
        (Inl err, w') \<Rightarrow> (Settled (Inl err), w')
      | (Inr u, w') \<Rightarrow> (next_reset bs, monitoring_log (ResetBalance (address b)) w'))"
| "resume this e (Settled r) w = (Settled r, w)"

text \<open>
  The process: the module-level flag \<open>rpcConnected\<close>, the cycles started so far, and the
  world they share. Neither entry point keeps any other flag, and \<open>cron.schedule\<close> is
  called without options, so the library runs the callback at every matching tick.
\<close>

record process =
  rpcConnected :: bool
  cycles :: "task list"
  shared :: world

text \<open>The callback given to \<open>cron.schedule\<close>, up to its \<open>await\<close> of \<open>transferBalances\<close>.\<close>

definition start_transfer :: "process \<Rightarrow> process" where
  "start_transfer p =
     p\<lparr>cycles := cycles p @ [AwaitBalances],
       shared := monitoring_log RunningScheduledTransfer (shared p)\<rparr>"

fun callback :: "entrypoint \<Rightarrow> clock \<Rightarrow> process \<Rightarrow> process" where
  "callback (Minutes paymentInterval) now p =
     (if rpcConnected p then start_transfer p
      else p\<lparr>shared := monitoring_log RpcNotEstablished (shared p)\<rparr>)"
| "callback (Hours paymentInterval) now p =
     (if isPaymentTime paymentInterval now \<and> rpcConnected p then start_transfer p
      else if isPaymentTime paymentInterval now \<and> \<not> rpcConnected p
      then p\<lparr>shared := monitoring_log RpcNotEstablished (shared p)\<rparr>
      else p)"


text \<open>The \<open>catch\<close> around the awaited transfer: a rejection is logged, nothing else.\<close>

fun settle :: "task \<Rightarrow> world \<Rightarrow> world" where
  "settle (Settled (Inl err)) w = monitoring_log (TransactionManagerError err) w"
| "settle t w = w"

datatype event = Tick clock | Resume nat

fun step :: "entrypoint \<Rightarrow> trxManager \<Rightarrow> env \<Rightarrow> process \<Rightarrow> event \<Rightarrow> process" where
  "step v this e p (Tick now) = callback v now p"
| "step v this e p (Resume i) =
     (if i < length (cycles p) then
        (case cycles p ! i of
           Settled r \<Rightarrow> p
         | t \<Rightarrow> (case resume this e t (shared p) of
                  (t', w') \<Rightarrow> p\<lparr>cycles := (cycles p)[i := t'], shared := settle t' w'\<rparr>))
      else p)"

definition run :: "entrypoint \<Rightarrow> trxManager \<Rightarrow> env \<Rightarrow> process \<Rightarrow> event list \<Rightarrow> process" where
  "run v this e p evs = foldl (step v this e) p evs"

section \<open>Notions used in the statements\<close>

text \<open>The \<open>balances\<close> table after the rows of the given addresses were set to zero.\<close>

definition reset_rows :: "string list \<Rightarrow> PoolBalanceRow list \<Rightarrow> PoolBalanceRow list" where
  "reset_rows paid rows =
     map (\<lambda>row. if address row \<in> set paid then row\<lparr>available_balance := 0\<rparr> else row) rows"

section \<open>Scenarios\<close>

text \<open>
  The scenario of the specification: balances 500 for \<open>A\<close>, 0 for \<open>B\<close> and 1200 for
  \<open>C\<close>, an empty payment history, nothing broadcast.
\<close>

definition scenario :: world where
  "scenario =
     \<lparr>tbl_balances = [\<lparr>address = ''A'', available_balance = 500\<rparr>,
                       \<lparr>address = ''B'', available_balance = 0\<rparr>,
                       \<lparr>address = ''C'', available_balance = 1200\<rparr>],
      tbl_payments = [], submitted = [], queries = 0, calls = [], logs = []\<rparr>"

definition pool_manager :: trxManager where
  "pool_manager = \<lparr>address = ''vecno:qtreasury'', networkId = ''mainnet''\<rparr>"

text \<open>One transaction per batch, accepted by the node: \<open>T1\<close> first, \<open>T2\<close> afterwards.\<close>

definition one_transaction :: "string list \<Rightarrow> PendingTransaction list \<times> string option" where
  "one_transaction sub =
     (let i = (if sub = [] then ''T1'' else ''T2'')
      in ([\<lparr>transaction_id = i, sign_fails = False, submit_fails = False\<rparr>], Some i))"

definition all_well :: env where
  "all_well = \<lparr>db_fails = (\<lambda>n. False),
               createTransactions = (\<lambda>sub change outputs. Some (one_transaction sub))\<rparr>"

text \<open>Two transactions; the node rejects the second one.\<close>

definition second_rejected :: env where
  "second_rejected =
     \<lparr>db_fails = (\<lambda>n. False),
      createTransactions = (\<lambda>sub change outputs.
        Some ([\<lparr>transaction_id = ''T1'', sign_fails = False, submit_fails = False\<rparr>,
               \<lparr>transaction_id = ''T2'', sign_fails = False, submit_fails = True\<rparr>],
              Some ''T2''))\<rparr>"

text \<open>The transaction goes out, but the summary carries no final transaction id.\<close>

definition no_final_id :: env where
  "no_final_id =
     \<lparr>db_fails = (\<lambda>n. False),
      createTransactions = (\<lambda>sub change outputs.
        Some ([\<lparr>transaction_id = ''T1'', sign_fails = False, submit_fails = False\<rparr>], None))\<rparr>"

text \<open>The ledger accepts everything; the database rejects query number \<open>k\<close> (counted from 0).\<close>

definition query_rejected :: "nat \<Rightarrow> env" where
  "query_rejected k =
     \<lparr>db_fails = (\<lambda>n. n = k),
      createTransactions = (\<lambda>sub change outputs. Some (one_transaction sub))\<rparr>"

text \<open>Every balance already paid out.\<close>

definition nothing_due :: world where
  "nothing_due =
     \<lparr>tbl_balances = [\<lparr>address = ''A'', available_balance = 0\<rparr>,
                       \<lparr>address = ''B'', available_balance = 0\<rparr>],
      tbl_payments = [], submitted = [], queries = 0, calls = [], logs = []\<rparr>"

text \<open>A \<open>balances\<close> table with a row under the pool's derived address and a row keyed \<open>pool\<close>.\<close>

definition treasury_row :: world where
  "treasury_row =
     \<lparr>tbl_balances = [\<lparr>address = ''vecno:qtreasury'', available_balance = 100\<rparr>,
                       \<lparr>address = ''pool'', available_balance = 7\<rparr>,
                       \<lparr>address = ''A'', available_balance = 500\<rparr>],
      tbl_payments = [], submitted = [], queries = 0, calls = [], logs = []\<rparr>"

definition at_time :: "nat \<Rightarrow> nat \<Rightarrow> nat \<Rightarrow> clock" where
  "at_time h m s = \<lparr>second = s, minute = m, hour = h, dayOfMonth = 1, month = 1, dayOfWeek = 1\<rparr>"

definition idle :: process where
  "idle = \<lparr>rpcConnected = True, cycles = [], shared = scenario\<rparr>"

section \<open>Facts about the loops and the collaborators\<close>

lemma truthy_simps: "truthy None = False" "truthy (Some s) = (s \<noteq> [])"
  by (simp_all add: truthy_def)

lemma payments_loop_eq:
  "payments_loop bs acc w =
     (acc @ map (\<lambda>b. \<lparr>address = address b, amount = balance b\<rparr>) (filter (\<lambda>b. balance b > 0) bs),
      w\<lparr>logs := logs w @ map (\<lambda>b. ProcessingBalance (balance b) (address b))
                           (filter (\<lambda>b. balance b > 0) bs)\<rparr>)"
  by (induction bs arbitrary: acc w) (simp_all add: monitoring_log_def)

lemma payments_loop_world:
  assumes "payments_loop bals [] w1 = (payments, w2)"
  shows "payments = map (\<lambda>b. \<lparr>address = address b, amount = balance b\<rparr>)
                      (filter (\<lambda>b. balance b > 0) bals)"
    and "w2 = w1\<lparr>logs := logs w1 @ map (\<lambda>b. ProcessingBalance (balance b) (address b))
                                 (filter (\<lambda>b. balance b > 0) bals)\<rparr>"
  using assms by (simp_all add: payments_loop_eq)

lemma getAll_world:
  "snd (getAllBalancesExcludingPool e w) =
     w\<lparr>queries := Suc (queries w), calls := calls w @ [GetAllBalancesExcludingPool]\<rparr>"
  by (simp add: getAllBalancesExcludingPool_def query_def)

lemma getAll_Inr:
  assumes "getAllBalancesExcludingPool e w = (Inr bals, w1)"
  shows "w1 = w\<lparr>queries := Suc (queries w), calls := calls w @ [GetAllBalancesExcludingPool]\<rparr>"
  using assms getAll_world [of e w] by simp

lemma getAll_rows:
  assumes "getAllBalancesExcludingPool e w = (Inr bals, w1)"
  shows "bals = map (\<lambda>row. \<lparr>address = address row, minerId = address row,
                              balance = available_balance row\<rparr>)
                  (filter (\<lambda>row. address row \<noteq> ''pool'') (tbl_balances w))"
  using assms by (auto simp add: getAllBalancesExcludingPool_def query_def split: if_splits)

lemma getAll_resolves:
  assumes "\<not> db_fails e (queries w)"
  shows "fst (getAllBalancesExcludingPool e w) =
           Inr (map (\<lambda>row. \<lparr>address = address row, minerId = address row,
                              balance = available_balance row\<rparr>)
                  (filter (\<lambda>row. address row \<noteq> ''pool'') (tbl_balances w)))"
  using assms by (simp add: getAllBalancesExcludingPool_def query_def)

lemma submit_each_frame:
  "tbl_balances (snd (submit_each ts w)) = tbl_balances w \<and>
   tbl_payments (snd (submit_each ts w)) = tbl_payments w \<and>
   queries (snd (submit_each ts w)) = queries w \<and>
   calls (snd (submit_each ts w)) = calls w \<and>
   logs (snd (submit_each ts w)) = logs w"
  by (induction ts arbitrary: w) simp_all

lemma submit_each_error: "fst (submit_each ts w) = Inl err \<Longrightarrow> err = SubmissionFailed"
  by (induction ts arbitrary: w) (simp_all split: if_splits)

lemma submit_each_Inr_aux:
  "fst (submit_each ts w) = Inr u \<Longrightarrow>
   snd (submit_each ts w) = w\<lparr>submitted := submitted w @ map transaction_id ts\<rparr>"
  by (induction ts arbitrary: w) (simp_all split: if_splits)

lemma submit_each_Inr:
  "submit_each ts w = (Inr u, w') \<Longrightarrow>
   w' = w\<lparr>submitted := submitted w @ map transaction_id ts\<rparr>"
  using submit_each_Inr_aux [of ts w u] by simp

lemma send_frame:
  "tbl_balances (snd (send this e outputs w)) = tbl_balances w \<and>
   tbl_payments (snd (send this e outputs w)) = tbl_payments w \<and>
   queries (snd (send this e outputs w)) = queries w \<and>
   calls (snd (send this e outputs w)) = calls w @ [Send outputs] \<and>
   logs (snd (send this e outputs w)) = logs w @ [ConsoleLog outputs]"
proof (cases "createTransactions e (submitted w) (address this) outputs")
  case None
  then show ?thesis by (simp add: send_def monitoring_log_def)
next
  case (Some r)
  obtain txs fin where r: "r = (txs, fin)" by (cases r)
  define w0 where
    "w0 = monitoring_log (ConsoleLog outputs) (w\<lparr>calls := calls w @ [Send outputs]\<rparr>)"
  have "snd (send this e outputs w) = snd (submit_each txs w0)"
    using Some r by (simp add: send_def w0_def split: prod.splits sum.splits)
  then show ?thesis
    using submit_each_frame [of txs w0] by (simp add: w0_def monitoring_log_def)
qed

lemma send_error:
  assumes "fst (send this e outputs w) = Inl err"
  shows "err = SubmissionFailed"
proof (cases "createTransactions e (submitted w) (address this) outputs")
  case None
  with assms show ?thesis by (simp add: send_def)
next
  case (Some r)
  obtain txs fin where r: "r = (txs, fin)" by (cases r)
  define w0 where
    "w0 = monitoring_log (ConsoleLog outputs) (w\<lparr>calls := calls w @ [Send outputs]\<rparr>)"
  from assms Some r have "fst (submit_each txs w0) = Inl err"
    by (simp add: send_def w0_def split: prod.splits sum.splits)
  then show ?thesis by (rule submit_each_error)
qed

lemma send_Inr_submitted:
  assumes "send this e outputs w = (Inr tid, w')"
    and "createTransactions e (submitted w) (address this) outputs = Some (txs, fin)"
  shows "tid = fin \<and> submitted w' = submitted w @ map transaction_id txs"
proof -
  define w0 where
    "w0 = monitoring_log (ConsoleLog outputs) (w\<lparr>calls := calls w @ [Send outputs]\<rparr>)"
  obtain r w1 where sub: "submit_each txs w0 = (r, w1)" by (cases "submit_each txs w0")
  from assms sub have r: "r = Inr ()" and tid: "tid = fin" and w': "w' = w1"
    by (auto simp add: send_def w0_def split: sum.splits)
  from sub r have "w1 = w0\<lparr>submitted := submitted w0 @ map transaction_id txs\<rparr>"
    by (simp add: submit_each_Inr)
  then show ?thesis using tid w' by (simp add: w0_def monitoring_log_def)
qed

lemma reset_rows_Nil: "reset_rows [] rows = rows"
  by (simp add: reset_rows_def)

lemma reset_rows_Cons:
  "reset_rows as (map (\<lambda>row. if address row = a then row\<lparr>available_balance := 0\<rparr> else row) rows)
     = reset_rows (a # as) rows"
  by (simp add: reset_rows_def)

lemma reset_loop_ok:
  "(\<forall>i < length (filter (\<lambda>b. balance b > 0) bs). \<not> db_fails e (queries w + i)) \<Longrightarrow>
   reset_loop e bs w =
     (Inr (),
      w\<lparr>tbl_balances := reset_rows (map address (filter (\<lambda>b. balance b > 0) bs)) (tbl_balances w),
        queries := queries w + length (filter (\<lambda>b. balance b > 0) bs),
        calls := calls w @ map ResetBalanceByAddress (map address (filter (\<lambda>b. balance b > 0) bs)),
        logs := logs w @ map ResetBalance (map address (filter (\<lambda>b. balance b > 0) bs))\<rparr>)"
proof (induction bs arbitrary: w)
  case Nil
  then show ?case by (simp add: reset_rows_Nil)
next
  case (Cons b bs)
  show ?case
  proof (cases "balance b > 0")
    case False
    with Cons show ?thesis by simp
  next
    case True
    from Cons.prems True have first: "\<not> db_fails e (queries w)" by force
    from Cons.prems True have rest:
      "\<forall>i < length (filter (\<lambda>b. balance b > 0) bs). \<not> db_fails e (Suc (queries w) + i)"
      by force
    define w' where "w' = monitoring_log (ResetBalance (address b)) (snd (resetBalanceByAddress e (address b) w))"
    have q: "queries w' = Suc (queries w)"
      by (simp add: w'_def monitoring_log_def resetBalanceByAddress_def query_def first)
    have step: "reset_loop e (b # bs) w = reset_loop e bs w'"
      using True first by (simp add: w'_def resetBalanceByAddress_def query_def)
    have "reset_loop e bs w' = (Inr (),
      w'\<lparr>tbl_balances := reset_rows (map address (filter (\<lambda>b. balance b > 0) bs)) (tbl_balances w'),
        queries := queries w' + length (filter (\<lambda>b. balance b > 0) bs),
        calls := calls w' @ map ResetBalanceByAddress (map address (filter (\<lambda>b. balance b > 0) bs)),
        logs := logs w' @ map ResetBalance (map address (filter (\<lambda>b. balance b > 0) bs))\<rparr>)"
      using rest by (intro Cons.IH) (simp add: q)
    then show ?thesis
      unfolding step using True first
      by (simp add: w'_def monitoring_log_def resetBalanceByAddress_def query_def reset_rows_Cons)
  qed
qed

lemma reset_loop_append:
  "reset_loop e (pre @ post) w =
     (case reset_loop e pre w of
        (Inl err, w') \<Rightarrow> (Inl err, w')
      | (Inr u, w') \<Rightarrow> reset_loop e post w')"
  by (induction pre arbitrary: w) (auto split: prod.splits sum.splits)

lemma reset_loop_stops:
  assumes "balance b > 0"
    and "\<forall>i < length (filter (\<lambda>b. balance b > 0) pre). \<not> db_fails e (queries w + i)"
    and "db_fails e (queries w + length (filter (\<lambda>b. balance b > 0) pre))"
  shows "reset_loop e (pre @ b # post) w =
     (Inl StoreUnavailable,
      w\<lparr>tbl_balances := reset_rows (map address (filter (\<lambda>b. balance b > 0) pre)) (tbl_balances w),
        queries := Suc (queries w + length (filter (\<lambda>b. balance b > 0) pre)),
        calls := calls w @ map ResetBalanceByAddress (map address (filter (\<lambda>b. balance b > 0) pre))
                   @ [ResetBalanceByAddress (address b)],
        logs := logs w @ map ResetBalance (map address (filter (\<lambda>b. balance b > 0) pre))\<rparr>)"
  using assms
  by (simp add: reset_loop_append reset_loop_ok resetBalanceByAddress_def query_def)

lemma reset_loop_frame:
  "tbl_payments (snd (reset_loop e bs w)) = tbl_payments w \<and>
   submitted (snd (reset_loop e bs w)) = submitted w \<and>
   (\<exists>as. calls (snd (reset_loop e bs w)) = calls w @ map ResetBalanceByAddress as)"
proof (induction bs arbitrary: w)
  case Nil
  have "calls w = calls w @ map ResetBalanceByAddress []" by simp
  then show ?case by auto
next
  case (Cons b bs)
  show ?case
  proof (cases "balance b > 0 \<and> \<not> db_fails e (queries w)")
    case False
    show ?thesis
    proof (cases "balance b > 0")
      case True
      with False have c: "calls (snd (reset_loop e (b # bs) w)) =
                         calls w @ map ResetBalanceByAddress [address b]"
        by (simp add: resetBalanceByAddress_def query_def)
      then have "\<exists>as. calls (snd (reset_loop e (b # bs) w)) =
                         calls w @ map ResetBalanceByAddress as" by blast
      moreover from True False have "tbl_payments (snd (reset_loop e (b # bs) w)) = tbl_payments w"
        and "submitted (snd (reset_loop e (b # bs) w)) = submitted w"
        by (simp_all add: resetBalanceByAddress_def query_def)
      ultimately show ?thesis by blast
    next
      case False
      with Cons.IH [of w] show ?thesis by simp
    qed
  next
    case True
    let ?w = "monitoring_log (ResetBalance (address b)) (snd (resetBalanceByAddress e (address b) w))"
    have step: "reset_loop e (b # bs) w = reset_loop e bs ?w"
      using True by (simp add: resetBalanceByAddress_def query_def)
    have w: "tbl_payments ?w = tbl_payments w" "submitted ?w = submitted w"
      "calls ?w = calls w @ [ResetBalanceByAddress (address b)]"
      using True by (simp_all add: resetBalanceByAddress_def query_def monitoring_log_def)
    from Cons.IH [of ?w] obtain as where
      "calls (snd (reset_loop e bs ?w)) = calls ?w @ map ResetBalanceByAddress as" by blast
    then have "calls (snd (reset_loop e (b # bs) w)) =
                 calls w @ map ResetBalanceByAddress (address b # as)"
      unfolding step by (simp add: w)
    then have "\<exists>as. calls (snd (reset_loop e (b # bs) w)) = calls w @ map ResetBalanceByAddress as"
      by blast
    with Cons.IH [of ?w] show ?thesis unfolding step by (simp add: w)
  qed
qed

text \<open>
  Whatever the environment does, a cycle makes no \<open>recordPayment\<close> call and leaves the
  payment history as it was.
\<close>

lemma transferBalances_never_records:
  "\<exists>cs. calls (snd (transferBalances this e w)) = calls w @ cs \<and>
        (\<forall>a m t. RecordPayment a m t \<notin> set cs)"
proof -
  obtain r1 w1 where snap: "getAllBalancesExcludingPool e w = (r1, w1)"
    by (cases "getAllBalancesExcludingPool e w")
  have w1: "w1 = w\<lparr>queries := Suc (queries w), calls := calls w @ [GetAllBalancesExcludingPool]\<rparr>"
    using snap getAll_world [of e w] by simp
  show ?thesis
  proof (cases r1)
    case (Inl err)
    then have "calls (snd (transferBalances this e w)) = calls w @ [GetAllBalancesExcludingPool]"
      using snap w1 by (simp add: transferBalances_def)
    then show ?thesis by auto
  next
    case (Inr bals)
    obtain payments w2 where pay: "payments_loop bals [] w1 = (payments, w2)"
      by (cases "payments_loop bals [] w1")
    have w2: "calls w2 = calls w @ [GetAllBalancesExcludingPool]"
      using payments_loop_world(2) [OF pay] w1 by simp
    show ?thesis
    proof (cases "payments = []")
      case True
      then have "calls (snd (transferBalances this e w)) = calls w @ [GetAllBalancesExcludingPool]"
        using snap Inr pay w2 by (simp add: transferBalances_def monitoring_log_def)
      then show ?thesis by auto
    next
      case False
      obtain r3 w3 where sent: "send this e payments w2 = (r3, w3)"
        by (cases "send this e payments w2")
      have w3: "calls w3 = calls w @ [GetAllBalancesExcludingPool, Send payments]"
        using send_frame [of this e payments w2] sent w2 by simp
      show ?thesis
      proof (cases "\<exists>tid. r3 = Inr tid \<and> truthy tid")
        case no: False
        then have "calls (snd (transferBalances this e w)) =
                     calls w @ [GetAllBalancesExcludingPool, Send payments]"
          using snap Inr pay False sent w3
          by (cases r3) (auto simp add: transferBalances_def monitoring_log_def)
        then show ?thesis by auto
      next
        case True
        then obtain tid where tid: "r3 = Inr tid" "truthy tid" by blast
        let ?w4 = "monitoring_log (SentPayments tid) w3"
        have t: "transferBalances this e w = reset_loop e bals ?w4"
          using snap Inr pay False sent tid by (simp add: transferBalances_def)
        from reset_loop_frame [of e bals ?w4] obtain as where
          "calls (snd (reset_loop e bals ?w4)) = calls ?w4 @ map ResetBalanceByAddress as"
          by blast
        then have "calls (snd (transferBalances this e w)) =
            calls w @ ([GetAllBalancesExcludingPool, Send payments] @ map ResetBalanceByAddress as)"
          unfolding t by (simp add: w3 monitoring_log_def)
        moreover have "\<forall>a m t. RecordPayment a m t \<notin>
            set ([GetAllBalancesExcludingPool, Send payments] @ map ResetBalanceByAddress as)"
          by auto
        ultimately show ?thesis by blast
      qed
    qed
  qed
qed

lemma transferBalances_history:
  "tbl_payments (snd (transferBalances this e w)) = tbl_payments w"
proof -
  obtain r1 w1 where snap: "getAllBalancesExcludingPool e w = (r1, w1)"
    by (cases "getAllBalancesExcludingPool e w")
  have w1: "tbl_payments w1 = tbl_payments w"
    using snap getAll_world [of e w] by simp
  show ?thesis
  proof (cases r1)
    case (Inl err)
    then show ?thesis using snap w1 by (simp add: transferBalances_def)
  next
    case (Inr bals)
    obtain payments w2 where pay: "payments_loop bals [] w1 = (payments, w2)"
      by (cases "payments_loop bals [] w1")
    have w2: "tbl_payments w2 = tbl_payments w"
      using payments_loop_world(2) [OF pay] w1 by simp
    obtain r3 w3 where sent: "send this e payments w2 = (r3, w3)"
      by (cases "send this e payments w2")
    have w3: "tbl_payments w3 = tbl_payments w"
      using send_frame [of this e payments w2] sent w2 by simp
    have "tbl_payments (snd (reset_loop e bals (monitoring_log (SentPayments tid) w3))) =
            tbl_payments w" for tid
      using reset_loop_frame [of e bals "monitoring_log (SentPayments tid) w3"] w3
      by (simp add: monitoring_log_def)
    then show ?thesis
      using snap Inr pay sent w2 w3
      by (cases r3) (simp_all add: transferBalances_def monitoring_log_def)
  qed
qed

section \<open>One cycle resumed alone is \<open>transferBalances\<close>\<close>

lemma run_Nil: "run v this e p [] = p"
  by (simp add: run_def)

lemma run_Cons: "run v this e p (ev # evs) = run v this e (step v this e p ev) evs"
  by (simp add: run_def)

lemma settle_next_reset: "settle (next_reset bs) w = w"
  by (induction bs) simp_all

text \<open>The reset phase of one cycle, resumed alone until it settles.\<close>

lemma run_reset_phase:
  assumes "i < length (cycles p)" and "cycles p ! i = next_reset bs"
  shows "\<exists>n. run v this e p (replicate n (Resume i)) =
           p\<lparr>cycles := (cycles p)[i := Settled (fst (reset_loop e bs (shared p)))],
             shared := settle (Settled (fst (reset_loop e bs (shared p))))
                         (snd (reset_loop e bs (shared p)))\<rparr>"
  using assms
proof (induction bs arbitrary: p)
  case Nil
  then have t: "cycles p ! i = Settled (Inr ())" by simp
  have "(cycles p)[i := cycles p ! i] = cycles p" by (rule list_update_id)
  then have same: "(cycles p)[i := Settled (Inr ())] = cycles p" by (simp only: t)
  have "run v this e p (replicate 0 (Resume i)) =
           p\<lparr>cycles := (cycles p)[i := Settled (fst (reset_loop e [] (shared p)))],
             shared := settle (Settled (fst (reset_loop e [] (shared p))))
                         (snd (reset_loop e [] (shared p)))\<rparr>"
    by (simp add: run_Nil same)
  then show ?case by blast
next
  case (Cons b bs)
  show ?case
  proof (cases "balance b > 0")
    case False
    with Cons.prems have "cycles p ! i = next_reset bs" by simp
    from Cons.IH [OF Cons.prems(1) this] False show ?thesis by simp
  next
    case True
    with Cons.prems have task: "cycles p ! i = AwaitReset (b # bs)" by simp
    obtain r w' where res: "resetBalanceByAddress e (address b) (shared p) = (r, w')"
      by (cases "resetBalanceByAddress e (address b) (shared p)")
    show ?thesis
    proof (cases r)
      case (Inl err)
      have "run v this e p (replicate 1 (Resume i)) =
           p\<lparr>cycles := (cycles p)[i := Settled (fst (reset_loop e (b # bs) (shared p)))],
             shared := settle (Settled (fst (reset_loop e (b # bs) (shared p))))
                         (snd (reset_loop e (b # bs) (shared p)))\<rparr>"
        using Cons.prems(1) task True res Inl by (simp add: run_Cons run_Nil)
      then show ?thesis by blast
    next
      case (Inr u)
      let ?w = "monitoring_log (ResetBalance (address b)) w'"
      let ?p = "p\<lparr>cycles := (cycles p)[i := next_reset bs], shared := ?w\<rparr>"
      have one: "step v this e p (Resume i) = ?p"
        using Cons.prems(1) task res Inr by (simp add: settle_next_reset)
      have loop: "reset_loop e (b # bs) (shared p) = reset_loop e bs ?w"
        using True res Inr by simp
      have "i < length (cycles ?p)" and "cycles ?p ! i = next_reset bs"
        using Cons.prems(1) by simp_all
      from Cons.IH [OF this] obtain n where n:
        "run v this e ?p (replicate n (Resume i)) =
           ?p\<lparr>cycles := (cycles ?p)[i := Settled (fst (reset_loop e bs (shared ?p)))],
             shared := settle (Settled (fst (reset_loop e bs (shared ?p))))
                         (snd (reset_loop e bs (shared ?p)))\<rparr>"
        by blast
      have "run v this e p (replicate (Suc n) (Resume i)) = run v this e ?p (replicate n (Resume i))"
        by (simp only: replicate_Suc run_Cons one)
      also have "\<dots> =
           p\<lparr>cycles := (cycles p)[i := Settled (fst (reset_loop e (b # bs) (shared p)))],
             shared := settle (Settled (fst (reset_loop e (b # bs) (shared p))))
                         (snd (reset_loop e (b # bs) (shared p)))\<rparr>"
        unfolding n loop by simp
      finally have "run v this e p (replicate (Suc n) (Resume i)) =
           p\<lparr>cycles := (cycles p)[i := Settled (fst (reset_loop e (b # bs) (shared p)))],
             shared := settle (Settled (fst (reset_loop e (b # bs) (shared p))))
                         (snd (reset_loop e (b # bs) (shared p)))\<rparr>" .
      then show ?thesis by blast
    qed
  qed
qed

lemma step_Resume:
  assumes "i < length (cycles p)" and "cycles p ! i = t" and "\<And>r. t \<noteq> Settled r"
  shows "step v this e p (Resume i) =
           p\<lparr>cycles := (cycles p)[i := fst (resume this e t (shared p))],
             shared := settle (fst (resume this e t (shared p))) (snd (resume this e t (shared p)))\<rparr>"
  using assms by (cases t) (auto split: prod.splits)

lemma run_cycle_alone:
  assumes i: "i < length (cycles p)" and t: "cycles p ! i = AwaitBalances"
  shows "\<exists>n. run v this e p (replicate n (Resume i)) =
           p\<lparr>cycles := (cycles p)[i := Settled (fst (transferBalances this e (shared p)))],
             shared := settle (Settled (fst (transferBalances this e (shared p))))
                         (snd (transferBalances this e (shared p)))\<rparr>"
    (is "\<exists>n. run v this e p (replicate n (Resume i)) = ?goal")
proof -
  let ?w = "shared p"
  obtain r1 w1 where snap: "getAllBalancesExcludingPool e ?w = (r1, w1)"
    by (cases "getAllBalancesExcludingPool e ?w")
  have first: "step v this e p (Resume i) =
           p\<lparr>cycles := (cycles p)[i := fst (resume this e AwaitBalances ?w)],
             shared := settle (fst (resume this e AwaitBalances ?w)) (snd (resume this e AwaitBalances ?w))\<rparr>"
    by (rule step_Resume [OF i t]) simp
  show ?thesis
  proof (cases r1)
    case (Inl err)
    have "run v this e p (replicate 1 (Resume i)) = ?goal"
      using snap Inl by (simp add: run_Cons run_Nil first transferBalances_def del: step.simps)
    then show ?thesis by blast
  next
    case (Inr bals)
    obtain payments w2 where pay: "payments_loop bals [] w1 = (payments, w2)"
      by (cases "payments_loop bals [] w1")
    show ?thesis
    proof (cases "payments = []")
      case True
      have "run v this e p (replicate 1 (Resume i)) = ?goal"
        using snap Inr pay True
        by (simp add: run_Cons run_Nil first transferBalances_def del: step.simps)
      then show ?thesis by blast
    next
      case False
      let ?p1 = "p\<lparr>cycles := (cycles p)[i := AwaitSend bals payments], shared := w2\<rparr>"
      have one: "step v this e p (Resume i) = ?p1"
        using snap Inr pay False by (simp add: first del: step.simps)
      have i1: "i < length (cycles ?p1)" and t1: "cycles ?p1 ! i = AwaitSend bals payments"
        using i by simp_all
      have second: "step v this e ?p1 (Resume i) =
           ?p1\<lparr>cycles := (cycles ?p1)[i := fst (resume this e (AwaitSend bals payments) (shared ?p1))],
             shared := settle (fst (resume this e (AwaitSend bals payments) (shared ?p1)))
                         (snd (resume this e (AwaitSend bals payments) (shared ?p1)))\<rparr>"
        by (rule step_Resume [OF i1 t1]) simp
      obtain r3 w3 where sent: "send this e payments w2 = (r3, w3)"
        by (cases "send this e payments w2")
      show ?thesis
      proof (cases r3)
        case (Inl err)
        have "run v this e p (replicate 2 (Resume i)) = ?goal"
          using snap Inr pay False sent Inl
          by (simp add: numeral_2_eq_2 run_Cons run_Nil one second transferBalances_def del: step.simps)
        then show ?thesis by blast
      next
        case tid: (Inr transactionId)
        let ?w4 = "monitoring_log (SentPayments transactionId) w3"
        show ?thesis
        proof (cases "truthy transactionId")
          case False
          have "run v this e p (replicate 2 (Resume i)) = ?goal"
            using snap Inr pay \<open>payments \<noteq> []\<close> sent tid False
            by (simp add: numeral_2_eq_2 run_Cons run_Nil one second transferBalances_def del: step.simps)
          then show ?thesis by blast
        next
          case True
          let ?p2 = "p\<lparr>cycles := (cycles p)[i := next_reset bals], shared := ?w4\<rparr>"
          have two: "step v this e ?p1 (Resume i) = ?p2"
            using sent tid True by (simp add: second settle_next_reset del: step.simps)
          have tb: "transferBalances this e ?w = reset_loop e bals ?w4"
            using snap Inr pay \<open>payments \<noteq> []\<close> sent tid True by (simp add: transferBalances_def)
          have "i < length (cycles ?p2)" and "cycles ?p2 ! i = next_reset bals"
            using i by simp_all
          from run_reset_phase [OF this, of v this e] obtain n where n:
            "run v this e ?p2 (replicate n (Resume i)) =
               ?p2\<lparr>cycles := (cycles ?p2)[i := Settled (fst (reset_loop e bals (shared ?p2)))],
                 shared := settle (Settled (fst (reset_loop e bals (shared ?p2))))
                             (snd (reset_loop e bals (shared ?p2)))\<rparr>"
            by blast
          have "run v this e p (replicate (Suc (Suc n)) (Resume i)) = run v this e ?p2 (replicate n (Resume i))"
            by (simp only: replicate_Suc run_Cons one two)
          also have "\<dots> = ?goal"
            unfolding n tb by simp
          finally show ?thesis by blast
        qed
      qed
    qed
  qed
qed

section \<open>Arithmetic of the schedule\<close>






section \<open>The payout cycle\<close>

text \<open>
  C1. The claim: after a cycle whose submission succeeds with transaction id \<open>T\<close>, every
  address of the batch was reset and has a payment-history record with its snapshot amount
  and \<open>T\<close>. \<open>transferBalances\<close> never calls \<open>recordPayment\<close>: in the scenario of the
  specification the cycle succeeds with \<open>T1\<close>, resets \<open>A\<close>, and neither calls
  \<open>recordPayment\<close> for \<open>A\<close> nor leaves any row in the payment history.
\<close>

theorem payment_history_not_written:
  "fst (transferBalances pool_manager all_well scenario) = Inr () \<and>
   SentPayments (Some ''T1'') \<in> set (logs (snd (transferBalances pool_manager all_well scenario))) \<and>
   ResetBalanceByAddress ''A'' \<in> set (calls (snd (transferBalances pool_manager all_well scenario))) \<and>
   RecordPayment ''A'' 500 ''T1'' \<notin> set (calls (snd (transferBalances pool_manager all_well scenario))) \<and>
   tbl_payments (snd (transferBalances pool_manager all_well scenario)) = []"
  by (simp add: transferBalances_def getAllBalancesExcludingPool_def query_def send_def
        resetBalanceByAddress_def monitoring_log_def truthy_def scenario_def all_well_def
        pool_manager_def one_transaction_def Let_def)

text \<open>
  C1, as the code has it. When the snapshot is read, the batch is not empty, \<open>send\<close>
  returns a non-empty transaction id and the reset queries resolve, then the cycle ends
  normally; after the snapshot query and \<open>send\<close> it calls \<open>resetBalanceByAddress\<close> once
  for each address of the batch, in batch order, and nothing else; the balances of exactly
  these addresses are zero afterwards, and the payment history is as it was.
\<close>

theorem successful_cycle_resets_and_records_nothing:
  assumes snap: "getAllBalancesExcludingPool e w = (Inr bals, wa)"
    and pay: "payments_loop bals [] wa = (payments, wb)"
    and ne: "payments \<noteq> []"
    and sent: "send this e payments wb = (Inr (Some T), wc)"
    and T: "T \<noteq> []"
    and db: "\<forall>i < length payments. \<not> db_fails e (Suc (queries w) + i)"
  shows "fst (transferBalances this e w) = Inr () \<and>
         calls (snd (transferBalances this e w)) =
           calls w @ [GetAllBalancesExcludingPool, Send payments]
             @ map ResetBalanceByAddress (map address payments) \<and>
         tbl_balances (snd (transferBalances this e w)) =
           reset_rows (map address payments) (tbl_balances w) \<and>
         tbl_payments (snd (transferBalances this e w)) = tbl_payments w"
proof -
  let ?w4 = "monitoring_log (SentPayments (Some T)) wc"
  let ?pos = "filter (\<lambda>b. balance b > 0) bals"
  have p: "payments = map (\<lambda>b. \<lparr>address = address b, amount = balance b\<rparr>) ?pos"
    by (rule payments_loop_world(1) [OF pay])
  have addrs: "map address payments = map address ?pos"
    by (simp add: p)
  have t: "transferBalances this e w = reset_loop e bals ?w4"
    using snap pay ne sent T by (simp add: transferBalances_def truthy_def)
  have wc: "wc = snd (send this e payments wb)" using sent by simp
  have q: "queries ?w4 = Suc (queries w)"
    using send_frame [of this e payments wb] payments_loop_world(2) [OF pay] getAll_Inr [OF snap]
    by (simp add: wc monitoring_log_def)
  have ok: "\<forall>i < length ?pos. \<not> db_fails e (queries ?w4 + i)"
    using db unfolding q by (simp add: p)
  show ?thesis
    unfolding t reset_loop_ok [OF ok] addrs [symmetric]
    using send_frame [of this e payments wb] payments_loop_world(2) [OF pay] getAll_Inr [OF snap]
    by (simp add: wc monitoring_log_def)
qed

theorem successful_cycle_resets_and_records_nothing_witness:
  "fst (transferBalances pool_manager all_well scenario) = Inr () \<and>
   calls (snd (transferBalances pool_manager all_well scenario)) =
     [GetAllBalancesExcludingPool,
      Send [\<lparr>address = ''A'', amount = 500\<rparr>, \<lparr>address = ''C'', amount = 1200\<rparr>],
      ResetBalanceByAddress ''A'', ResetBalanceByAddress ''C''] \<and>
   tbl_balances (snd (transferBalances pool_manager all_well scenario)) =
     [\<lparr>address = ''A'', available_balance = 0\<rparr>,
      \<lparr>address = ''B'', available_balance = 0\<rparr>,
      \<lparr>address = ''C'', available_balance = 0\<rparr>] \<and>
   tbl_payments (snd (transferBalances pool_manager all_well scenario)) = []"
  using successful_cycle_resets_and_records_nothing
    [where e = all_well and w = scenario and this = pool_manager and T = "''T1''"
       and bals = "[\<lparr>address = ''A'', minerId = ''A'', balance = 500\<rparr>,
                    \<lparr>address = ''B'', minerId = ''B'', balance = 0\<rparr>,
                    \<lparr>address = ''C'', minerId = ''C'', balance = 1200\<rparr>]"
       and wa = "scenario\<lparr>queries := 1, calls := [GetAllBalancesExcludingPool]\<rparr>"
       and payments = "[\<lparr>address = ''A'', amount = 500\<rparr>, \<lparr>address = ''C'', amount = 1200\<rparr>]"
       and wb = "scenario\<lparr>queries := 1, calls := [GetAllBalancesExcludingPool],
                   logs := [ProcessingBalance 500 ''A'', ProcessingBalance 1200 ''C'']\<rparr>"
       and wc = "scenario\<lparr>queries := 1,
                   calls := [GetAllBalancesExcludingPool,
                     Send [\<lparr>address = ''A'', amount = 500\<rparr>, \<lparr>address = ''C'', amount = 1200\<rparr>]],
                   logs := [ProcessingBalance 500 ''A'', ProcessingBalance 1200 ''C'',
                     ConsoleLog [\<lparr>address = ''A'', amount = 500\<rparr>, \<lparr>address = ''C'', amount = 1200\<rparr>]],
                   submitted := [''T1'']\<rparr>"]
  by (simp add: getAllBalancesExcludingPool_def query_def payments_loop_eq send_def
        monitoring_log_def scenario_def all_well_def pool_manager_def one_transaction_def Let_def
        reset_rows_def)

text \<open>
  C2. When \<open>send\<close> throws, \<open>transferBalances\<close> rejects with that error; the cycle has made
  the snapshot query and the \<open>send\<close> call and no other call (no reset, no payment record),
  and both tables are as they were before the cycle.
\<close>

theorem failed_submission_leaves_store_unchanged:
  assumes snap: "getAllBalancesExcludingPool e w = (Inr bals, wa)"
    and pay: "payments_loop bals [] wa = (payments, wb)"
    and ne: "payments \<noteq> []"
    and fail: "fst (send this e payments wb) = Inl err"
  shows "fst (transferBalances this e w) = Inl SubmissionFailed \<and>
         tbl_balances (snd (transferBalances this e w)) = tbl_balances w \<and>
         tbl_payments (snd (transferBalances this e w)) = tbl_payments w \<and>
         calls (snd (transferBalances this e w)) =
           calls w @ [GetAllBalancesExcludingPool, Send payments]"
proof -
  have err: "err = SubmissionFailed"
    using fail by (rule send_error)
  obtain wc where s: "send this e payments wb = (Inl err, wc)"
    using fail by (cases "send this e payments wb") simp
  have t: "transferBalances this e w = (Inl err, wc)"
    using snap pay ne s by (simp add: transferBalances_def)
  have wc: "wc = snd (send this e payments wb)" using s by simp
  show ?thesis
    unfolding t
    using send_frame [of this e payments wb] payments_loop_world(2) [OF pay] getAll_Inr [OF snap]
    by (simp add: wc err)
qed

theorem failed_submission_leaves_store_unchanged_witness:
  "fst (transferBalances pool_manager second_rejected scenario) = Inl SubmissionFailed \<and>
   tbl_balances (snd (transferBalances pool_manager second_rejected scenario)) =
     [\<lparr>address = ''A'', available_balance = 500\<rparr>,
      \<lparr>address = ''B'', available_balance = 0\<rparr>,
      \<lparr>address = ''C'', available_balance = 1200\<rparr>] \<and>
   tbl_payments (snd (transferBalances pool_manager second_rejected scenario)) = [] \<and>
   calls (snd (transferBalances pool_manager second_rejected scenario)) =
     [GetAllBalancesExcludingPool,
      Send [\<lparr>address = ''A'', amount = 500\<rparr>, \<lparr>address = ''C'', amount = 1200\<rparr>]]"
  using failed_submission_leaves_store_unchanged
    [where e = second_rejected and w = scenario and this = pool_manager
       and err = SubmissionFailed
       and bals = "[\<lparr>address = ''A'', minerId = ''A'', balance = 500\<rparr>,
                    \<lparr>address = ''B'', minerId = ''B'', balance = 0\<rparr>,
                    \<lparr>address = ''C'', minerId = ''C'', balance = 1200\<rparr>]"
       and wa = "scenario\<lparr>queries := 1, calls := [GetAllBalancesExcludingPool]\<rparr>"
       and payments = "[\<lparr>address = ''A'', amount = 500\<rparr>, \<lparr>address = ''C'', amount = 1200\<rparr>]"
       and wb = "scenario\<lparr>queries := 1, calls := [GetAllBalancesExcludingPool],
                   logs := [ProcessingBalance 500 ''A'', ProcessingBalance 1200 ''C'']\<rparr>"]
  by (simp add: getAllBalancesExcludingPool_def query_def payments_loop_eq send_def
        monitoring_log_def scenario_def second_rejected_def pool_manager_def)

text \<open>
  C3. The batch built from a snapshot is the subsequence of its records with a strictly
  positive balance, in snapshot order, each with its snapshot amount. Hence no output has
  an amount of 0 or less, an address occurs at most once in the batch when it occurs at
  most once in the snapshot (the \<open>balances\<close> relation is keyed by address), and the
  amounts of the batch add up to the sum of the strictly positive balances.
\<close>

theorem batch_is_the_positive_balances_in_order:
  "fst (payments_loop bals [] w) =
     map (\<lambda>b. \<lparr>address = address b, amount = balance b\<rparr>) (filter (\<lambda>b. balance b > 0) bals) \<and>
   (\<forall>p \<in> set (fst (payments_loop bals [] w)). amount p > 0) \<and>
   (distinct (map address bals) \<longrightarrow> distinct (map address (fst (payments_loop bals [] w)))) \<and>
   sum_list (map amount (fst (payments_loop bals [] w))) =
     sum_list (filter (\<lambda>x. x > 0) (map balance bals))"
proof -
  let ?pos = "filter (\<lambda>b. balance b > 0) bals"
  have out: "fst (payments_loop bals [] w) =
               map (\<lambda>b. \<lparr>address = address b, amount = balance b\<rparr>) ?pos"
    by (simp add: payments_loop_eq)
  have positive: "\<forall>p \<in> set (fst (payments_loop bals [] w)). amount p > 0"
    unfolding out by auto
  have addrs: "map address (fst (payments_loop bals [] w)) = map address ?pos"
    unfolding out by simp
  have once: "distinct (map address bals) \<longrightarrow>
                distinct (map address (fst (payments_loop bals [] w)))"
    unfolding addrs by (simp add: distinct_map_filter)
  have "map amount (fst (payments_loop bals [] w)) = map balance ?pos"
    unfolding out by simp
  also have "\<dots> = filter (\<lambda>x. x > 0) (map balance bals)"
    by (simp add: filter_map comp_def)
  finally have total: "sum_list (map amount (fst (payments_loop bals [] w))) =
     sum_list (filter (\<lambda>x. x > 0) (map balance bals))" by simp
  from out positive once total show ?thesis by blast
qed

theorem batch_is_the_positive_balances_in_order_witness:
  "fst (payments_loop [\<lparr>address = ''A'', minerId = ''A'', balance = 500\<rparr>,
                       \<lparr>address = ''B'', minerId = ''B'', balance = 0\<rparr>,
                       \<lparr>address = ''C'', minerId = ''C'', balance = 1200\<rparr>] [] scenario) =
     [\<lparr>address = ''A'', amount = 500\<rparr>, \<lparr>address = ''C'', amount = 1200\<rparr>] \<and>
   distinct (map address [\<lparr>address = ''A'', minerId = ''A'', balance = 500\<rparr>,
                          \<lparr>address = ''B'', minerId = ''B'', balance = 0\<rparr>,
                          \<lparr>address = ''C'', minerId = ''C'', balance = 1200\<rparr>]) \<and>
   distinct (map address (fst (payments_loop
                      [\<lparr>address = ''A'', minerId = ''A'', balance = 500\<rparr>,
                       \<lparr>address = ''B'', minerId = ''B'', balance = 0\<rparr>,
                       \<lparr>address = ''C'', minerId = ''C'', balance = 1200\<rparr>] [] scenario))) \<and>
   sum_list (map amount (fst (payments_loop
                      [\<lparr>address = ''A'', minerId = ''A'', balance = 500\<rparr>,
                       \<lparr>address = ''B'', minerId = ''B'', balance = 0\<rparr>,
                       \<lparr>address = ''C'', minerId = ''C'', balance = 1200\<rparr>] [] scenario))) = 1700"
  using batch_is_the_positive_balances_in_order
    [of "[\<lparr>address = ''A'', minerId = ''A'', balance = 500\<rparr>,
          \<lparr>address = ''B'', minerId = ''B'', balance = 0\<rparr>,
          \<lparr>address = ''C'', minerId = ''C'', balance = 1200\<rparr>]" scenario]
  by simp

text \<open>
  C4. When no balance of the snapshot is positive, the cycle ends normally after the
  snapshot query: it logs that there is nothing to pay, and makes no \<open>send\<close>, no reset and
  no payment record; nothing is thrown.
\<close>

theorem empty_batch_is_a_successful_noop:
  assumes snap: "getAllBalancesExcludingPool e w = (Inr bals, wa)"
    and nonpos: "\<forall>b \<in> set bals. balance b \<le> 0"
  shows "transferBalances this e w =
           (Inr (), w\<lparr>queries := Suc (queries w),
                      calls := calls w @ [GetAllBalancesExcludingPool],
                      logs := logs w @ [NoPaymentsFound]\<rparr>)"
proof -
  have empty: "filter (\<lambda>b. balance b > 0) bals = []"
    using nonpos by (auto simp add: filter_empty_conv)
  have "payments_loop bals [] wa = ([], wa)"
    by (simp add: payments_loop_eq empty)
  then show ?thesis
    using snap getAll_Inr [OF snap] by (simp add: transferBalances_def monitoring_log_def)
qed

theorem empty_batch_is_a_successful_noop_witness:
  "transferBalances pool_manager all_well nothing_due =
     (Inr (), nothing_due\<lparr>queries := 1, calls := [GetAllBalancesExcludingPool],
                logs := [NoPaymentsFound]\<rparr>)"
  using empty_batch_is_a_successful_noop
    [where e = all_well and w = nothing_due and this = pool_manager
       and bals = "[\<lparr>address = ''A'', minerId = ''A'', balance = 0\<rparr>,
                    \<lparr>address = ''B'', minerId = ''B'', balance = 0\<rparr>]"
       and wa = "nothing_due\<lparr>queries := 1, calls := [GetAllBalancesExcludingPool]\<rparr>"]
  by (simp add: getAllBalancesExcludingPool_def query_def nothing_due_def all_well_def)

text \<open>
  C5. The claim: after a successful submission, a reset that fails for one address is
  logged, the remaining addresses are still reset, and the cycle does not fail. The reset
  loop has no \<open>try\<close>: in the scenario of the specification, when the reset of \<open>A\<close> is
  rejected after \<open>T1\<close> went out, the cycle rejects and \<open>C\<close> gets no reset call.
\<close>

theorem rejected_reset_skips_later_addresses:
  "fst (transferBalances pool_manager (query_rejected 1) scenario) = Inl StoreUnavailable \<and>
   submitted (snd (transferBalances pool_manager (query_rejected 1) scenario)) = [''T1''] \<and>
   calls (snd (transferBalances pool_manager (query_rejected 1) scenario)) =
     [GetAllBalancesExcludingPool,
      Send [\<lparr>address = ''A'', amount = 500\<rparr>, \<lparr>address = ''C'', amount = 1200\<rparr>],
      ResetBalanceByAddress ''A''] \<and>
   ResetBalanceByAddress ''C'' \<notin>
     set (calls (snd (transferBalances pool_manager (query_rejected 1) scenario)))"
  by (simp add: transferBalances_def getAllBalancesExcludingPool_def query_def send_def
        resetBalanceByAddress_def monitoring_log_def truthy_def scenario_def query_rejected_def
        pool_manager_def one_transaction_def Let_def)

text \<open>
  C5, as the code has it. After a successful submission with a non-empty transaction id,
  the first rejected reset query ends the cycle with that error: the paid addresses before
  it in snapshot order have been reset, the rejected call is the last call of the cycle,
  and no address after it gets a reset call.
\<close>

theorem rejected_reset_ends_the_cycle:
  assumes snap: "getAllBalancesExcludingPool e w = (Inr (pre @ b # post), wa)"
    and pay: "payments_loop (pre @ b # post) [] wa = (payments, wb)"
    and sent: "send this e payments wb = (Inr transactionId, wc)"
    and tr: "truthy transactionId"
    and pos: "balance b > 0"
    and before: "\<forall>i < length (filter (\<lambda>b. balance b > 0) pre).
                   \<not> db_fails e (Suc (queries w) + i)"
    and fails: "db_fails e (Suc (queries w) + length (filter (\<lambda>b. balance b > 0) pre))"
  shows "fst (transferBalances this e w) = Inl StoreUnavailable \<and>
         calls (snd (transferBalances this e w)) =
           calls w @ [GetAllBalancesExcludingPool, Send payments]
             @ map ResetBalanceByAddress (map address (filter (\<lambda>b. balance b > 0) pre))
             @ [ResetBalanceByAddress (address b)] \<and>
         tbl_balances (snd (transferBalances this e w)) =
           reset_rows (map address (filter (\<lambda>b. balance b > 0) pre)) (tbl_balances w)"
proof -
  let ?w4 = "monitoring_log (SentPayments transactionId) wc"
  have ne: "payments \<noteq> []"
    using payments_loop_world(1) [OF pay] pos by simp
  have t: "transferBalances this e w = reset_loop e (pre @ b # post) ?w4"
    using snap pay ne sent tr by (simp add: transferBalances_def)
  have wc: "wc = snd (send this e payments wb)" using sent by simp
  have q: "queries ?w4 = Suc (queries w)"
    using send_frame [of this e payments wb] payments_loop_world(2) [OF pay] getAll_Inr [OF snap]
    by (simp add: wc monitoring_log_def)
  have stops: "reset_loop e (pre @ b # post) ?w4 =
     (Inl StoreUnavailable,
      ?w4\<lparr>tbl_balances := reset_rows (map address (filter (\<lambda>b. balance b > 0) pre)) (tbl_balances ?w4),
        queries := Suc (queries ?w4 + length (filter (\<lambda>b. balance b > 0) pre)),
        calls := calls ?w4 @ map ResetBalanceByAddress (map address (filter (\<lambda>b. balance b > 0) pre))
                   @ [ResetBalanceByAddress (address b)],
        logs := logs ?w4 @ map ResetBalance (map address (filter (\<lambda>b. balance b > 0) pre))\<rparr>)"
    using pos before fails unfolding q [symmetric] by (intro reset_loop_stops) simp_all
  show ?thesis
    unfolding t stops
    using send_frame [of this e payments wb] payments_loop_world(2) [OF pay] getAll_Inr [OF snap]
    by (simp add: wc monitoring_log_def)
qed

theorem rejected_reset_ends_the_cycle_witness:
  "fst (transferBalances pool_manager (query_rejected 2) scenario) = Inl StoreUnavailable \<and>
   calls (snd (transferBalances pool_manager (query_rejected 2) scenario)) =
     [GetAllBalancesExcludingPool,
      Send [\<lparr>address = ''A'', amount = 500\<rparr>, \<lparr>address = ''C'', amount = 1200\<rparr>],
      ResetBalanceByAddress ''A'', ResetBalanceByAddress ''C''] \<and>
   tbl_balances (snd (transferBalances pool_manager (query_rejected 2) scenario)) =
     [\<lparr>address = ''A'', available_balance = 0\<rparr>,
      \<lparr>address = ''B'', available_balance = 0\<rparr>,
      \<lparr>address = ''C'', available_balance = 1200\<rparr>]"
  using rejected_reset_ends_the_cycle
    [where e = "query_rejected 2" and w = scenario and this = pool_manager
       and transactionId = "Some ''T1''"
       and pre = "[\<lparr>address = ''A'', minerId = ''A'', balance = 500\<rparr>,
                   \<lparr>address = ''B'', minerId = ''B'', balance = 0\<rparr>]"
       and b = "\<lparr>address = ''C'', minerId = ''C'', balance = 1200\<rparr>"
       and post = "[]"
       and wa = "scenario\<lparr>queries := 1, calls := [GetAllBalancesExcludingPool]\<rparr>"
       and payments = "[\<lparr>address = ''A'', amount = 500\<rparr>, \<lparr>address = ''C'', amount = 1200\<rparr>]"
       and wb = "scenario\<lparr>queries := 1, calls := [GetAllBalancesExcludingPool],
                   logs := [ProcessingBalance 500 ''A'', ProcessingBalance 1200 ''C'']\<rparr>"
       and wc = "scenario\<lparr>queries := 1,
                   calls := [GetAllBalancesExcludingPool,
                     Send [\<lparr>address = ''A'', amount = 500\<rparr>, \<lparr>address = ''C'', amount = 1200\<rparr>]],
                   logs := [ProcessingBalance 500 ''A'', ProcessingBalance 1200 ''C'',
                     ConsoleLog [\<lparr>address = ''A'', amount = 500\<rparr>, \<lparr>address = ''C'', amount = 1200\<rparr>]],
                   submitted := [''T1'']\<rparr>"]
  by (simp add: getAllBalancesExcludingPool_def query_def payments_loop_eq send_def
        monitoring_log_def scenario_def query_rejected_def pool_manager_def truthy_def
        one_transaction_def Let_def reset_rows_def)

text \<open>
  C10. When \<open>send\<close> returns without throwing and its transaction id is undefined or
  empty, the cycle ends normally without any reset call, although every transaction of
  the batch has been signed and submitted; the balances are as before the cycle, so the
  next snapshot holds them again.
\<close>

theorem falsy_transaction_id_skips_resets:
  assumes snap: "getAllBalancesExcludingPool e w = (Inr bals, wa)"
    and pay: "payments_loop bals [] wa = (payments, wb)"
    and ne: "payments \<noteq> []"
    and gen: "createTransactions e (submitted w) (address this) payments = Some (txs, fin)"
    and sent: "send this e payments wb = (Inr transactionId, wc)"
    and falsy: "\<not> truthy transactionId"
  shows "fst (transferBalances this e w) = Inr () \<and>
         submitted (snd (transferBalances this e w)) = submitted w @ map transaction_id txs \<and>
         tbl_balances (snd (transferBalances this e w)) = tbl_balances w \<and>
         calls (snd (transferBalances this e w)) =
           calls w @ [GetAllBalancesExcludingPool, Send payments] \<and>
         (\<not> db_fails e (Suc (queries w)) \<longrightarrow>
            fst (getAllBalancesExcludingPool e (snd (transferBalances this e w))) = Inr bals)"
proof -
  let ?end = "monitoring_log (SentPayments transactionId) wc"
  have t: "transferBalances this e w = (Inr (), ?end)"
    using snap pay ne sent falsy by (simp add: transferBalances_def)
  have wc: "wc = snd (send this e payments wb)" using sent by simp
  have same: "submitted wb = submitted w"
    using payments_loop_world(2) [OF pay] getAll_Inr [OF snap] by simp
  have sub: "submitted wc = submitted wb @ map transaction_id txs"
    using send_Inr_submitted [OF sent] gen by (simp add: same)
  have frame: "tbl_balances ?end = tbl_balances w \<and> queries ?end = Suc (queries w) \<and>
               calls ?end = calls w @ [GetAllBalancesExcludingPool, Send payments] \<and>
               submitted ?end = submitted w @ map transaction_id txs"
    using send_frame [of this e payments wb] payments_loop_world(2) [OF pay] getAll_Inr [OF snap] sub
    by (simp add: wc monitoring_log_def)
  have again: "\<not> db_fails e (Suc (queries w)) \<longrightarrow>
                 fst (getAllBalancesExcludingPool e ?end) = Inr bals"
  proof
    assume "\<not> db_fails e (Suc (queries w))"
    then have "\<not> db_fails e (queries ?end)" using frame by simp
    from getAll_resolves [OF this] show "fst (getAllBalancesExcludingPool e ?end) = Inr bals"
      using frame getAll_rows [OF snap] by simp
  qed
  show ?thesis
    unfolding t using frame again by simp
qed

theorem falsy_transaction_id_skips_resets_witness:
  "fst (transferBalances pool_manager no_final_id scenario) = Inr () \<and>
   submitted (snd (transferBalances pool_manager no_final_id scenario)) = [''T1''] \<and>
   tbl_balances (snd (transferBalances pool_manager no_final_id scenario)) =
     [\<lparr>address = ''A'', available_balance = 500\<rparr>,
      \<lparr>address = ''B'', available_balance = 0\<rparr>,
      \<lparr>address = ''C'', available_balance = 1200\<rparr>] \<and>
   calls (snd (transferBalances pool_manager no_final_id scenario)) =
     [GetAllBalancesExcludingPool,
      Send [\<lparr>address = ''A'', amount = 500\<rparr>, \<lparr>address = ''C'', amount = 1200\<rparr>]] \<and>
   fst (getAllBalancesExcludingPool no_final_id
          (snd (transferBalances pool_manager no_final_id scenario))) =
     Inr [\<lparr>address = ''A'', minerId = ''A'', balance = 500\<rparr>,
          \<lparr>address = ''B'', minerId = ''B'', balance = 0\<rparr>,
          \<lparr>address = ''C'', minerId = ''C'', balance = 1200\<rparr>]"
  using falsy_transaction_id_skips_resets
    [where e = no_final_id and w = scenario and this = pool_manager
       and transactionId = None and fin = None
       and txs = "[\<lparr>transaction_id = ''T1'', sign_fails = False, submit_fails = False\<rparr>]"
       and bals = "[\<lparr>address = ''A'', minerId = ''A'', balance = 500\<rparr>,
                    \<lparr>address = ''B'', minerId = ''B'', balance = 0\<rparr>,
                    \<lparr>address = ''C'', minerId = ''C'', balance = 1200\<rparr>]"
       and wa = "scenario\<lparr>queries := 1, calls := [GetAllBalancesExcludingPool]\<rparr>"
       and payments = "[\<lparr>address = ''A'', amount = 500\<rparr>, \<lparr>address = ''C'', amount = 1200\<rparr>]"
       and wb = "scenario\<lparr>queries := 1, calls := [GetAllBalancesExcludingPool],
                   logs := [ProcessingBalance 500 ''A'', ProcessingBalance 1200 ''C'']\<rparr>"
       and wc = "scenario\<lparr>queries := 1,
                   calls := [GetAllBalancesExcludingPool,
                     Send [\<lparr>address = ''A'', amount = 500\<rparr>, \<lparr>address = ''C'', amount = 1200\<rparr>]],
                   logs := [ProcessingBalance 500 ''A'', ProcessingBalance 1200 ''C'',
                     ConsoleLog [\<lparr>address = ''A'', amount = 500\<rparr>, \<lparr>address = ''C'', amount = 1200\<rparr>]],
                   submitted := [''T1'']\<rparr>"]
  by (simp add: getAllBalancesExcludingPool_def query_def payments_loop_eq send_def
        monitoring_log_def scenario_def no_final_id_def pool_manager_def truthy_def)

section \<open>The snapshot query\<close>

text \<open>
  C9. The claim: the snapshot holds exactly the records whose address is not the pool's
  treasury address, the one derived from the private key. The query compares with the
  text \<open>pool\<close>: a row under the derived address is part of the snapshot.
\<close>

theorem treasury_address_in_snapshot:
  "address pool_manager = ''vecno:qtreasury'' \<and>
   fst (getAllBalancesExcludingPool all_well treasury_row) =
     Inr [\<lparr>address = ''vecno:qtreasury'', minerId = ''vecno:qtreasury'', balance = 100\<rparr>,
          \<lparr>address = ''A'', minerId = ''A'', balance = 500\<rparr>]"
  by (simp add: getAllBalancesExcludingPool_def query_def all_well_def treasury_row_def
        pool_manager_def)

text \<open>
  C9, as the code has it. When the query resolves, the snapshot holds exactly the rows whose
  address is not the text \<open>pool\<close>, in table order; no record of a snapshot has the
  address \<open>pool\<close>.
\<close>

theorem snapshot_excludes_the_pool_key:
  assumes "\<not> db_fails e (queries w)"
  shows "fst (getAllBalancesExcludingPool e w) =
           Inr (map (\<lambda>row. \<lparr>address = address row, minerId = address row,
                              balance = available_balance row\<rparr>)
                  (filter (\<lambda>row. address row \<noteq> ''pool'') (tbl_balances w))) \<and>
         (\<forall>bals. fst (getAllBalancesExcludingPool e w) = Inr bals \<longrightarrow>
                   ''pool'' \<notin> set (map address bals))"
  using assms by (auto simp add: getAllBalancesExcludingPool_def query_def)

theorem snapshot_excludes_the_pool_key_witness:
  "fst (getAllBalancesExcludingPool all_well treasury_row) =
     Inr [\<lparr>address = ''vecno:qtreasury'', minerId = ''vecno:qtreasury'', balance = 100\<rparr>,
          \<lparr>address = ''A'', minerId = ''A'', balance = 500\<rparr>] \<and>
   ''pool'' \<notin> set (map address
     [\<lparr>address = ''vecno:qtreasury'', minerId = ''vecno:qtreasury'', balance = 100\<rparr>,
      \<lparr>address = ''A'', minerId = ''A'', balance = 500\<rparr>])"
  using snapshot_excludes_the_pool_key [of all_well treasury_row]
  by (simp add: all_well_def treasury_row_def)

section \<open>Configuration and schedule\<close>

text \<open>
  C7. The claim: the payout interval is in minutes, is 30 when absent, and startup throws
  exactly when the configured value is outside 5 to 1440. A configured 0 is outside that
  range and is accepted: it is falsy, so the default takes its place. In \<open>index.ts\<close> the
  setting is in hours, with default 2, and 30 is refused.
\<close>

theorem zero_interval_is_accepted:
  "\<not> ((\<exists>msg. paymentInterval_minutes (Some 0) = Inl msg) \<longleftrightarrow> ((0::int) < 5 \<or> (0::int) > 1440)) \<and>
   paymentInterval_minutes (Some 0) = Inr 30 \<and>
   paymentInterval_hours None = Inr 2 \<and>
   paymentInterval_hours (Some 30) = Inl ''paymentInterval must be between 1 and 24 hours.''"
  by (simp add: paymentInterval_minutes_def paymentInterval_hours_def or_default_def)

text \<open>
  C7, as the code has it. In the minutes variant the interval is 30 when the setting is
  absent or 0, and startup throws exactly when the setting is not 0 and outside 5 to 1440.
  In \<open>index.ts\<close> the interval is in hours: 2 when the setting is absent or 0, and startup
  throws exactly when the setting is not 0 and outside 1 to 24.
\<close>

theorem paymentInterval_check:
  "paymentInterval_minutes None = Inr 30 \<and>
   paymentInterval_minutes (Some 0) = Inr 30 \<and>
   ((\<exists>msg. paymentInterval_minutes cfg = Inl msg) \<longleftrightarrow>
      (\<exists>v. cfg = Some v \<and> v \<noteq> 0 \<and> (v < 5 \<or> 1440 < v))) \<and>
   (\<forall>v. 5 \<le> v \<and> v \<le> 1440 \<longrightarrow> paymentInterval_minutes (Some v) = Inr v) \<and>
   paymentInterval_hours None = Inr 2 \<and>
   paymentInterval_hours (Some 0) = Inr 2 \<and>
   ((\<exists>msg. paymentInterval_hours cfg = Inl msg) \<longleftrightarrow>
      (\<exists>v. cfg = Some v \<and> v \<noteq> 0 \<and> (v < 1 \<or> 24 < v))) \<and>
   (\<forall>v. 1 \<le> v \<and> v \<le> 24 \<longrightarrow> paymentInterval_hours (Some v) = Inr v)"
  by (cases cfg)
     (auto simp add: paymentInterval_minutes_def paymentInterval_hours_def or_default_def Let_def)

theorem paymentInterval_check_witness:
  "(\<exists>msg. paymentInterval_minutes (Some 1441) = Inl msg) \<and>
   (\<exists>msg. paymentInterval_minutes (Some 4) = Inl msg) \<and>
   paymentInterval_minutes (Some 5) = Inr 5 \<and>
   paymentInterval_minutes (Some 1440) = Inr 1440 \<and>
   (\<exists>msg. paymentInterval_hours (Some 25) = Inl msg) \<and>
   paymentInterval_hours (Some 24) = Inr 24"
  using paymentInterval_check [of "Some 1441"] paymentInterval_check [of "Some 4"]
    paymentInterval_check [of "Some 25"]
  by simp




section \<open>Overlapping triggers\<close>

text \<open>
  C6. The claim: a trigger that arrives while a cycle is in progress is dropped as a logged
  no-op, so that two cycles never work on the same snapshot. Neither callback looks at the
  cycles in flight. With a 30 minute interval and a first cycle still waiting for \<open>send\<close>
  at the next trigger, the second trigger starts a second cycle; it reads the same
  balances, and both cycles send the same batch and reset the same addresses.
\<close>

theorem overlapping_triggers_both_run:
  "transfer_due (Minutes 30) (at_time 0 0 0) \<and> transfer_due (Minutes 30) (at_time 0 30 0) \<and>
   cycles (run (Minutes 30) pool_manager all_well idle
             [Tick (at_time 0 0 0), Resume 0, Tick (at_time 0 30 0)]) =
     [AwaitSend [\<lparr>address = ''A'', minerId = ''A'', balance = 500\<rparr>,
                 \<lparr>address = ''B'', minerId = ''B'', balance = 0\<rparr>,
                 \<lparr>address = ''C'', minerId = ''C'', balance = 1200\<rparr>]
                [\<lparr>address = ''A'', amount = 500\<rparr>, \<lparr>address = ''C'', amount = 1200\<rparr>],
      AwaitBalances] \<and>
   calls (shared (run (Minutes 30) pool_manager all_well idle
             [Tick (at_time 0 0 0), Resume 0, Tick (at_time 0 30 0), Resume 1,
              Resume 0, Resume 1, Resume 0, Resume 0, Resume 1, Resume 1])) =
     [GetAllBalancesExcludingPool, GetAllBalancesExcludingPool,
      Send [\<lparr>address = ''A'', amount = 500\<rparr>, \<lparr>address = ''C'', amount = 1200\<rparr>],
      Send [\<lparr>address = ''A'', amount = 500\<rparr>, \<lparr>address = ''C'', amount = 1200\<rparr>],
      ResetBalanceByAddress ''A'', ResetBalanceByAddress ''C'',
      ResetBalanceByAddress ''A'', ResetBalanceByAddress ''C''] \<and>
   submitted (shared (run (Minutes 30) pool_manager all_well idle
             [Tick (at_time 0 0 0), Resume 0, Tick (at_time 0 30 0), Resume 1,
              Resume 0, Resume 1, Resume 0, Resume 0, Resume 1, Resume 1])) = [''T1'', ''T2'']"
  by (simp add: run_def idle_def at_time_def getAllBalancesExcludingPool_def query_def send_def
        resetBalanceByAddress_def monitoring_log_def truthy_def scenario_def all_well_def
        pool_manager_def one_transaction_def Let_def start_transfer_def)

text \<open>
  C6, as the code has it. A trigger that reaches the transfer test is dropped, with a
  logged error and nothing else changed, when \<open>rpcConnected\<close> is false. When
  \<open>rpcConnected\<close> is true it starts a new cycle whatever cycles are in flight; resumed
  without any other cycle or trigger in between, that cycle is \<open>transferBalances\<close> on the
  state it finds, and a rejection is logged by the callback.
\<close>

theorem callback_has_no_reentrancy_guard:
  assumes due: "v = Minutes m \<or> (v = Hours m \<and> isPaymentTime m now)"
  shows "(\<not> rpcConnected p \<longrightarrow>
            callback v now p = p\<lparr>shared := monitoring_log RpcNotEstablished (shared p)\<rparr>) \<and>
         (rpcConnected p \<longrightarrow>
            callback v now p =
              p\<lparr>cycles := cycles p @ [AwaitBalances],
                shared := monitoring_log RunningScheduledTransfer (shared p)\<rparr> \<and>
            (\<exists>n. run v this e p (Tick now # replicate n (Resume (length (cycles p)))) =
               p\<lparr>cycles := cycles p @
                    [Settled (fst (transferBalances this e
                       (monitoring_log RunningScheduledTransfer (shared p))))],
                 shared := settle
                    (Settled (fst (transferBalances this e
                       (monitoring_log RunningScheduledTransfer (shared p)))))
                    (snd (transferBalances this e
                       (monitoring_log RunningScheduledTransfer (shared p))))\<rparr>))"
proof (intro conjI impI)
  assume "\<not> rpcConnected p"
  with due show "callback v now p = p\<lparr>shared := monitoring_log RpcNotEstablished (shared p)\<rparr>"
    by auto
next
  assume rpc: "rpcConnected p"
  with due show started: "callback v now p =
      p\<lparr>cycles := cycles p @ [AwaitBalances],
        shared := monitoring_log RunningScheduledTransfer (shared p)\<rparr>"
    by (auto simp add: start_transfer_def)
  let ?i = "length (cycles p)"
  let ?q = "p\<lparr>cycles := cycles p @ [AwaitBalances],
              shared := monitoring_log RunningScheduledTransfer (shared p)\<rparr>"
  have "?i < length (cycles ?q)" and "cycles ?q ! ?i = AwaitBalances"
    by simp_all
  from run_cycle_alone [OF this, of v this e] obtain n where n:
    "run v this e ?q (replicate n (Resume ?i)) =
       ?q\<lparr>cycles := (cycles ?q)[?i := Settled (fst (transferBalances this e (shared ?q)))],
          shared := settle (Settled (fst (transferBalances this e (shared ?q))))
                      (snd (transferBalances this e (shared ?q)))\<rparr>"
    by blast
  have "run v this e p (Tick now # replicate n (Resume ?i)) =
          run v this e ?q (replicate n (Resume ?i))"
    by (simp only: run_Cons step.simps started)
  also have "\<dots> =
       p\<lparr>cycles := cycles p @
            [Settled (fst (transferBalances this e
               (monitoring_log RunningScheduledTransfer (shared p))))],
         shared := settle
            (Settled (fst (transferBalances this e
               (monitoring_log RunningScheduledTransfer (shared p)))))
            (snd (transferBalances this e
               (monitoring_log RunningScheduledTransfer (shared p))))\<rparr>"
    unfolding n by simp
  finally show "\<exists>n. run v this e p (Tick now # replicate n (Resume (length (cycles p)))) =
       p\<lparr>cycles := cycles p @
            [Settled (fst (transferBalances this e
               (monitoring_log RunningScheduledTransfer (shared p))))],
         shared := settle
            (Settled (fst (transferBalances this e
               (monitoring_log RunningScheduledTransfer (shared p)))))
            (snd (transferBalances this e
               (monitoring_log RunningScheduledTransfer (shared p))))\<rparr>"
    by blast
qed

theorem callback_has_no_reentrancy_guard_witness:
  "callback (Minutes 30) (at_time 0 30 0) (idle\<lparr>cycles := [AwaitBalances]\<rparr>) =
     idle\<lparr>cycles := [AwaitBalances, AwaitBalances],
          shared := monitoring_log RunningScheduledTransfer scenario\<rparr> \<and>
   callback (Hours 1) (at_time 1 0 0) (idle\<lparr>cycles := [AwaitBalances]\<rparr>) =
     idle\<lparr>cycles := [AwaitBalances, AwaitBalances],
          shared := monitoring_log RunningScheduledTransfer scenario\<rparr> \<and>
   callback (Minutes 30) (at_time 0 30 0) (idle\<lparr>rpcConnected := False\<rparr>) =
     idle\<lparr>rpcConnected := False, shared := monitoring_log RpcNotEstablished scenario\<rparr>"
  using callback_has_no_reentrancy_guard
      [where v = "Minutes 30" and m = 30 and now = "at_time 0 30 0"
         and p = "idle\<lparr>cycles := [AwaitBalances]\<rparr>"]
    callback_has_no_reentrancy_guard
      [where v = "Hours 1" and m = 1 and now = "at_time 1 0 0"
         and p = "idle\<lparr>cycles := [AwaitBalances]\<rparr>"]
    callback_has_no_reentrancy_guard
      [where v = "Minutes 30" and m = 30 and now = "at_time 0 30 0"
         and p = "idle\<lparr>rpcConnected := False\<rparr>"]
  by (simp add: idle_def isPaymentTime_def at_time_def del: callback.simps)

end
